theory Spec2Isabelle
  imports Main
begin

section \<open>Messages and observable effects\<close>

text \<open>
  The message tags of \<^verbatim>\<open>main.cpp\<close> (the \<^verbatim>\<open>#define\<close>s at lines 83-93), in the order of
  their integer codes 0 to 10.
\<close>

datatype tag =
    START_PREFIX_TASK
  | KILL
  | FINISH
  | OFFLOAD
  | OFFLOAD_RESP
  | BUG_FOUND
  | TIMEOUT
  | NORMAL_TASK
  | KILL_COMP
  | READY_TO_OFFLOAD
  | NOT_READY_TO_OFFLOAD

type_synonym rank = nat

text \<open>
  A message as the receiver sees it: \<^verbatim>\<open>status.MPI_SOURCE\<close>, \<^verbatim>\<open>status.MPI_TAG\<close> and the
  bytes received; \<^verbatim>\<open>count\<close> (from \<^verbatim>\<open>MPI_Get_count\<close>) is the length of the payload.
\<close>

record msg =
  MPI_SOURCE :: rank
  MPI_TAG :: tag
  payload :: "char list"

text \<open>
  A send buffer is either a sequence of known bytes or \<open>n\<close> bytes of an uninitialised
  local (\<^verbatim>\<open>char dummy; MPI_Send(&dummy, 1, ...)\<close>).
\<close>

datatype buf = Bytes "char list" | Uninit nat

text \<open>
  The effects of a process that another process or the user can observe, in program order:
  \<^verbatim>\<open>MPI_Send(buf, n, MPI_CHAR, dest, tag, ...)\<close>, a blocking \<^verbatim>\<open>MPI_Recv\<close> from one given
  rank with one given tag (the shutdown's wait for \<^verbatim>\<open>KILL_COMP\<close>), the "Elapsed: ..." line
  written to the master log, \<^verbatim>\<open>masterLog.close()\<close> and \<^verbatim>\<open>MPI_Abort\<close>.
  The other log lines and the output on \<^verbatim>\<open>std::cout\<close> are left out.
  \<open>MPI_Recv r t\<close> records that the receive is posted; the model of the master goes on
  as if the message came. Whether a worker sends it is a property of \<open>worker\<close> below.
\<close>

datatype event =
    MPI_Send rank tag buf
  | MPI_Recv rank tag
  | LogElapsed
  | LogClose
  | MPI_Abort

text \<open>
  How a process (or one phase of it) ends. \<open>Running\<close>: control goes on to the next
  statement. \<open>Blocked\<close>: the process waits in a blocking probe or receive for a message
  that is not in the input given to the model. \<open>Aborted\<close>: \<^verbatim>\<open>MPI_Abort\<close> was called.
  \<open>AssertFailed\<close>: an \<^verbatim>\<open>assert\<close> failed (assertions are compiled in).
  \<open>Returned\<close>: the function returned. \<open>Spinning\<close>: the loop probes the same unreceived
  message for ever. \<open>MPIFailed\<close>: an MPI call was given a count that the library rejects;
  \<^verbatim>\<open>main\<close> installs no error handler, so the default one ends the job.
  \<open>Undefined\<close>: a receive writes past the end of its buffer.
\<close>

datatype outcome =
  Running | Blocked | Aborted | AssertFailed | Returned | Spinning | MPIFailed | Undefined

section \<open>The worker (ranks 2 and above)\<close>

text \<open>
  \<^verbatim>\<open>executeWorker\<close> builds an interpreter and runs it
  (\<^verbatim>\<open>interpreter->runFunctionAsMain2\<close>); the interpreter is not part of \<^verbatim>\<open>main.cpp\<close>.
  The model takes the run as a parameter: a function of the mode, of the prefix received
  and of the messages that rank 0 sends to this worker after the task. Either the run
  comes back (\<open>Returns\<close>), having sent some messages and received some number of the
  master's, or it never does (\<open>Stays\<close>), with the way the process ends there and what it
  has sent.
\<close>

datatype mode = PREFIX_MODE | RANGE_MODE | NO_MODE

datatype run = Returns "event list" nat | Stays outcome "event list"

type_synonym executeWorker = "mode \<Rightarrow> char list \<Rightarrow> msg list \<Rightarrow> run"




definition prepend :: "event list \<Rightarrow> outcome \<times> event list \<Rightarrow> outcome \<times> event list" where
  "prepend es r = (fst r, es @ snd r)"

text \<open>
  \<^verbatim>\<open>worker\<close> (lines 2056-2112): \<^verbatim>\<open>while(true)\<close>, probe the next message from rank 0 and
  branch on its tag. The first argument is the option \<^verbatim>\<open>phase1Depth\<close>. The input is the
  list of messages that rank 0 sends to this worker, in order; the result is how the
  function ends and what it sent.
  \<^item> \<^verbatim>\<open>KILL\<close>: \<^verbatim>\<open>MPI_Recv(&recv_prefix[0], phase1Depth, MPI_CHAR, 0, MPI_ANY_TAG, ...)\<close>
    and \<^verbatim>\<open>return\<close>. The receive is given room for \<^verbatim>\<open>phase1Depth\<close> bytes: a longer
    message is an error of truncation.
  \<^item> \<^verbatim>\<open>START_PREFIX_TASK\<close>: receive the \<^verbatim>\<open>count\<close> bytes probed,
    \<^verbatim>\<open>executeWorker(..., PREFIX_MODE, ...)\<close>, then
    \<^verbatim>\<open>MPI_Send(&result, 1, MPI_CHAR, 0, KILL_COMP, ...)\<close> and \<^verbatim>\<open>return\<close>
    (the send of \<^verbatim>\<open>FINISH\<close> at line 2091 is commented out).
  \<^item> \<^verbatim>\<open>NORMAL_TASK\<close>: receive the \<^verbatim>\<open>count\<close> bytes probed,
    \<^verbatim>\<open>executeWorker(..., NO_MODE, ...)\<close>, send \<^verbatim>\<open>FINISH\<close>, next iteration, on the
    messages that the run has left.
  \<^item> \<^verbatim>\<open>OFFLOAD\<close>: \<^verbatim>\<open>int count, buffer; MPI_Get_count(&status, MPI_INT, &count);\<close>
    \<^verbatim>\<open>MPI_Recv(&buffer, count, MPI_INT, 0, OFFLOAD, ...)\<close>, then send the one byte
    \<^verbatim>\<open>'x'\<close> with tag \<^verbatim>\<open>OFFLOAD_RESP\<close>, next iteration. An \<^verbatim>\<open>int\<close> has 4 bytes. For a
    message whose length is not a multiple of 4, \<^verbatim>\<open>MPI_Get_count\<close> gives
    \<^verbatim>\<open>MPI_UNDEFINED\<close>, a negative number, and the receive with that count is an error. A
    message of more than one \<^verbatim>\<open>int\<close> does not fit in \<^verbatim>\<open>buffer\<close>.
  \<^item> any other tag: no branch receives the message, so the next probe finds it again.
\<close>

fun worker :: "nat \<Rightarrow> executeWorker \<Rightarrow> msg list \<Rightarrow> outcome \<times> event list" where
  "worker phase1Depth ex [] = (Blocked, [])"
| "worker phase1Depth ex (m # ms) =
     (case MPI_TAG m of
        KILL \<Rightarrow>
          (if length (payload m) \<le> phase1Depth then (Returned, []) else (MPIFailed, []))
      | START_PREFIX_TASK \<Rightarrow>
          (case ex PREFIX_MODE (payload m) ms of
             Returns es n \<Rightarrow> (Returned, es @ [MPI_Send 0 KILL_COMP (Uninit 1)])
           | Stays out es \<Rightarrow> (out, es))
      | NORMAL_TASK \<Rightarrow>
          (case ex NO_MODE (payload m) ms of
             Returns es n \<Rightarrow>
               prepend (es @ [MPI_Send 0 FINISH (Uninit 1)])
                 (worker phase1Depth ex (drop n ms))
           | Stays out es \<Rightarrow> (out, es))
      | OFFLOAD \<Rightarrow>
          (if length (payload m) mod 4 \<noteq> 0 then (MPIFailed, [])
           else if 4 < length (payload m) then (Undefined, [])
           else prepend [MPI_Send 0 OFFLOAD_RESP (Bytes [CHR ''x''])]
                  (worker phase1Depth ex ms))
      | _ \<Rightarrow> (Spinning, []))"

section \<open>The timeout sentinel (rank 1)\<close>

text \<open>
  \<^verbatim>\<open>timeOutCheck\<close> (lines 1414-1423): sleep \<^verbatim>\<open>timeOut\<close> seconds, or 86400 when
  \<^verbatim>\<open>timeOut\<close> is 0, then send \<^verbatim>\<open>TIMEOUT\<close> to rank 0. The result is the number of seconds
  slept and what is sent.
\<close>

definition timeOutCheck :: "nat \<Rightarrow> nat \<times> event list" where
  "timeOutCheck timeOut =
     ((if timeOut \<noteq> 0 then timeOut else 86400), [MPI_Send 0 TIMEOUT (Uninit 1)])"

section \<open>The master (rank 0)\<close>

text \<open>
  What the master is run with: \<^verbatim>\<open>num_cores\<close> (an \<^verbatim>\<open>int\<close>, from \<^verbatim>\<open>MPI_Comm_size\<close>), the
  options \<^verbatim>\<open>lb\<close> and \<^verbatim>\<open>phase1Depth\<close>, and the prefixes that phase 1
  (\<^verbatim>\<open>runFunctionAsMain2\<close>, in the interpreter) returns: \<^verbatim>\<open>workList[i]\<close> with its length
  \<^verbatim>\<open>pathSizes[i]\<close> is the \<open>i\<close>-th element of \<open>workList\<close>.
\<close>

record config =
  num_cores :: int
  lb :: bool
  phase1Depth :: nat
  workList :: "char list list"

text \<open>
  The master's variables: the four deques, the index \<^verbatim>\<open>cnt\<close> of the next prefix, the flag
  \<^verbatim>\<open>offloadActive\<close>, and the effects so far.
\<close>

record master_state =
  freeList :: "rank list"
  offloadActiveList :: "rank list"
  busyList :: "rank list"
  offloadReadyList :: "rank list"
  cnt :: nat
  offloadActive :: bool
  trace :: "event list"

definition init_state :: master_state where
  "init_state = \<lparr> freeList = [], offloadActiveList = [], busyList = [],
     offloadReadyList = [], cnt = 0, offloadActive = False, trace = [] \<rparr>"

definition emit :: "event list \<Rightarrow> master_state \<Rightarrow> master_state" where
  "emit es st = st \<lparr> trace := trace st @ es \<rparr>"

text \<open>
  \<^verbatim>\<open>num_cores-2\<close> is an \<^verbatim>\<open>int\<close> (32 bits); compared with a \<^verbatim>\<open>size()\<close> it is
  converted to the unsigned 64-bit \<^verbatim>\<open>size_t\<close>: a negative value has \<open>2 ^ 64\<close> added,
  any other value is kept.
\<close>

definition size_t_of :: "int \<Rightarrow> nat" where
  "size_t_of i = (if i < 0 then nat (2 ^ 64 + i) else nat i)"

text \<open>The ranks that \<^verbatim>\<open>for(int x=2; x<num_cores; ++x)\<close> visits.\<close>

definition worker_ranks :: "config \<Rightarrow> rank list" where
  "worker_ranks cfg = [2 ..< nat (num_cores cfg)]"

definition kill_all :: "config \<Rightarrow> event list" where
  "kill_all cfg = map (\<lambda>x. MPI_Send x KILL (Uninit 1)) (worker_ranks cfg)"

definition collect_all :: "config \<Rightarrow> event list" where
  "collect_all cfg = map (\<lambda>x. MPI_Recv x KILL_COMP) (worker_ranks cfg)"

subsection \<open>Phase-1 depth 0\<close>

text \<open>
  Lines 1474-1508: send \<^verbatim>\<open>NORMAL_TASK\<close> to rank 2, receive one message from anyone, and
  branch on its tag. With any other tag than the three handled, control leaves the
  \<^verbatim>\<open>if\<close> and the function ends.
\<close>

definition master_normal :: "msg list \<Rightarrow> outcome \<times> event list" where
  "master_normal msgs =
     (case msgs of
        [] \<Rightarrow> (Blocked, [MPI_Send 2 NORMAL_TASK (Uninit 1)])
      | m # _ \<Rightarrow>
          (case MPI_TAG m of
             FINISH \<Rightarrow> (Aborted, [MPI_Send 2 NORMAL_TASK (Uninit 1),
                          MPI_Send 2 KILL (Uninit 1), MPI_Recv 2 KILL_COMP, LogClose, MPI_Abort])
           | TIMEOUT \<Rightarrow> (Aborted, [MPI_Send 2 NORMAL_TASK (Uninit 1), LogClose, MPI_Abort])
           | BUG_FOUND \<Rightarrow> (Aborted, [MPI_Send 2 NORMAL_TASK (Uninit 1),
                          LogElapsed, LogClose, MPI_Abort])
           | _ \<Rightarrow> (Returned, [MPI_Send 2 NORMAL_TASK (Uninit 1)])))"

subsection \<open>Seeding\<close>

text \<open>
  Line 1727:
  \<^verbatim>\<open>int whileCnt = (num_cores-2)<pathSizes.size()?num_cores-2:pathSizes.size();\<close>
\<close>

definition whileCnt :: "config \<Rightarrow> nat" where
  "whileCnt cfg =
     (if size_t_of (num_cores cfg - 2) < length (workList cfg)
      then nat (num_cores cfg - 2) else length (workList cfg))"

text \<open>
  Lines 1729-1739: \<^verbatim>\<open>while(cnt<whileCnt)\<close> sends prefix \<^verbatim>\<open>cnt\<close> to \<^verbatim>\<open>currRank\<close>, pushes
  \<^verbatim>\<open>currRank\<close> on \<^verbatim>\<open>busyList\<close> and increments both. The state is paired with
  \<^verbatim>\<open>currRank\<close>.
\<close>

function seed_loop :: "config \<Rightarrow> master_state \<times> rank \<Rightarrow> master_state \<times> rank" where
  "seed_loop cfg (st, currRank) =
     (if cnt st < whileCnt cfg
      then seed_loop cfg
             (st \<lparr> busyList := busyList st @ [currRank],
                   cnt := cnt st + 1,
                   trace := trace st @
                     [MPI_Send currRank START_PREFIX_TASK (Bytes (workList cfg ! cnt st))] \<rparr>,
              currRank + 1)
      else (st, currRank))"
  by pat_completeness auto
termination
  by (relation "measure (\<lambda>(cfg, st, r). whileCnt cfg - cnt st)") auto

text \<open>
  Lines 1742-1751: \<^verbatim>\<open>while(currRank < num_cores)\<close> sends \<^verbatim>\<open>KILL\<close> to \<^verbatim>\<open>currRank\<close> when
  \<^verbatim>\<open>lb\<close> is off, and pushes \<^verbatim>\<open>currRank\<close> on \<^verbatim>\<open>freeList\<close> in both cases.
\<close>

function kill_rest :: "config \<Rightarrow> master_state \<times> rank \<Rightarrow> master_state" where
  "kill_rest cfg (st, currRank) =
     (if int currRank < num_cores cfg
      then kill_rest cfg
             (st \<lparr> freeList := freeList st @ [currRank],
                   trace := trace st @
                     (if \<not> lb cfg then [MPI_Send currRank KILL (Uninit 1)] else []) \<rparr>,
              currRank + 1)
      else st)"
  by pat_completeness auto
termination
  by (relation "measure (\<lambda>(cfg, st, r). nat (num_cores cfg - int r))") auto

definition seeding :: "config \<Rightarrow> master_state" where
  "seeding cfg = kill_rest cfg (seed_loop cfg (init_state, 2))"

subsection \<open>The dispatch loop\<close>

text \<open>
  Lines 1757-1815, one iteration of \<^verbatim>\<open>while(cnt < pathSizes.size())\<close> after its blocking
  receive (of one byte, from any source, with any tag). \<open>remove1\<close> is the loop that erases
  the first element equal to the source and breaks.
  \<^item> \<^verbatim>\<open>FINISH\<close>: erase the source from \<^verbatim>\<open>busyList\<close> and \<^verbatim>\<open>offloadActiveList\<close>, send it prefix
    \<^verbatim>\<open>cnt\<close>, push it on \<^verbatim>\<open>busyList\<close>, increment \<^verbatim>\<open>cnt\<close>.
  \<^item> \<^verbatim>\<open>BUG_FOUND\<close>: write the elapsed time, close the log, send \<^verbatim>\<open>KILL\<close> to every worker;
    the branch ends there and the loop goes on.
  \<^item> \<^verbatim>\<open>READY_TO_OFFLOAD\<close>: push the source on \<^verbatim>\<open>offloadReadyList\<close>.
  \<^item> \<^verbatim>\<open>NOT_READY_TO_OFFLOAD\<close>: erase the source from \<^verbatim>\<open>offloadReadyList\<close>;
    \<^verbatim>\<open>assert(found2Erase)\<close>.
  \<^item> any other tag: \<^verbatim>\<open>assert(ok && "MASTER received an illegal tag")\<close> with \<^verbatim>\<open>ok\<close> false.
\<close>

definition dispatch_recv :: "config \<Rightarrow> msg \<Rightarrow> master_state \<Rightarrow> outcome \<times> master_state" where
  "dispatch_recv cfg m st =
     (case MPI_TAG m of
        FINISH \<Rightarrow>
          (Running,
           st \<lparr> busyList := remove1 (MPI_SOURCE m) (busyList st) @ [MPI_SOURCE m],
                offloadActiveList := remove1 (MPI_SOURCE m) (offloadActiveList st),
                cnt := cnt st + 1,
                trace := trace st @
                  [MPI_Send (MPI_SOURCE m) START_PREFIX_TASK (Bytes (workList cfg ! cnt st))] \<rparr>)
      | BUG_FOUND \<Rightarrow> (Running, emit ([LogElapsed, LogClose] @ kill_all cfg) st)
      | READY_TO_OFFLOAD \<Rightarrow>
          (Running, st \<lparr> offloadReadyList := offloadReadyList st @ [MPI_SOURCE m] \<rparr>)
      | NOT_READY_TO_OFFLOAD \<Rightarrow>
          (if MPI_SOURCE m \<in> set (offloadReadyList st)
           then (Running,
                 st \<lparr> offloadReadyList := remove1 (MPI_SOURCE m) (offloadReadyList st) \<rparr>)
           else (AssertFailed, st))
      | _ \<Rightarrow> (AssertFailed, st))"

text \<open>
  The loop over the messages received, in order. It ends \<open>Running\<close> when
  \<^verbatim>\<open>cnt < pathSizes.size()\<close> is false, and returns the messages not yet received.
\<close>

fun dispatch_loop ::
  "config \<Rightarrow> master_state \<Rightarrow> msg list \<Rightarrow> outcome \<times> master_state \<times> msg list" where
  "dispatch_loop cfg st [] =
     (if cnt st < length (workList cfg) then (Blocked, st, []) else (Running, st, []))"
| "dispatch_loop cfg st (m # ms) =
     (if cnt st < length (workList cfg)
      then (case dispatch_recv cfg m st of
              (Running, st') \<Rightarrow> dispatch_loop cfg st' ms
            | (out, st') \<Rightarrow> (out, st', ms))
      else (Running, st, m # ms))"

subsection \<open>The main loop\<close>

text \<open>
  Lines 1836-1960, the branch on the tag of a received message in \<^verbatim>\<open>while(true)\<close>.
  \<^item> \<^verbatim>\<open>BUG_FOUND\<close>: elapsed time, close the log, \<^verbatim>\<open>MPI_Abort\<close>.
  \<^item> \<^verbatim>\<open>FINISH\<close>: push the source on \<^verbatim>\<open>freeList\<close> unless it is there; erase it from
    \<^verbatim>\<open>busyList\<close>; erase it from \<^verbatim>\<open>offloadActiveList\<close> and, when it was there, clear
    \<^verbatim>\<open>offloadActive\<close>; erase it from \<^verbatim>\<open>offloadReadyList\<close>; when
    \<^verbatim>\<open>freeList.size() == (num_cores-2)\<close>, send \<^verbatim>\<open>KILL\<close> to every worker, write the
    elapsed time, close the log, receive \<^verbatim>\<open>KILL_COMP\<close> from every worker, \<^verbatim>\<open>MPI_Abort\<close>.
  \<^item> \<^verbatim>\<open>TIMEOUT\<close>: send \<^verbatim>\<open>KILL\<close> to every worker, receive \<^verbatim>\<open>KILL_COMP\<close> from every worker,
    \<^verbatim>\<open>MPI_Abort\<close>.
  \<^item> \<^verbatim>\<open>READY_TO_OFFLOAD\<close>: push the source on \<^verbatim>\<open>offloadReadyList\<close>.
  \<^item> \<^verbatim>\<open>NOT_READY_TO_OFFLOAD\<close>: erase the source from \<^verbatim>\<open>offloadReadyList\<close>
    (\<^verbatim>\<open>assert(found2Erase)\<close> is commented out).
  \<^item> \<^verbatim>\<open>OFFLOAD_RESP\<close>: erase the source from \<^verbatim>\<open>offloadActiveList\<close>; when \<^verbatim>\<open>count>4\<close>,
    \<^verbatim>\<open>assert(freeList.size() > 0)\<close>, send the payload as \<^verbatim>\<open>START_PREFIX_TASK\<close> to
    \<^verbatim>\<open>freeList.front()\<close>, push it on \<^verbatim>\<open>busyList\<close>, pop it from \<^verbatim>\<open>freeList\<close>; clear
    \<^verbatim>\<open>offloadActive\<close>.
  \<^item> any other tag: \<^verbatim>\<open>assert(ok && "MASTER received an illegal tag")\<close>.
\<close>

definition main_recv :: "config \<Rightarrow> msg \<Rightarrow> master_state \<Rightarrow> outcome \<times> master_state" where
  "main_recv cfg m st =
     (case MPI_TAG m of
        BUG_FOUND \<Rightarrow> (Aborted, emit [LogElapsed, LogClose, MPI_Abort] st)
      | FINISH \<Rightarrow>
          (let st1 = st \<lparr>
                 freeList := (if MPI_SOURCE m \<in> set (freeList st) then freeList st
                              else freeList st @ [MPI_SOURCE m]),
                 offloadActiveList := remove1 (MPI_SOURCE m) (offloadActiveList st),
                 busyList := remove1 (MPI_SOURCE m) (busyList st),
                 offloadReadyList := remove1 (MPI_SOURCE m) (offloadReadyList st),
                 offloadActive := (if MPI_SOURCE m \<in> set (offloadActiveList st) then False
                                   else offloadActive st) \<rparr>
           in if length (freeList st1) = size_t_of (num_cores cfg - 2)
              then (Aborted,
                    emit (kill_all cfg @ [LogElapsed, LogClose] @ collect_all cfg @ [MPI_Abort])
                      st1)
              else (Running, st1))
      | TIMEOUT \<Rightarrow> (Aborted, emit (kill_all cfg @ collect_all cfg @ [MPI_Abort]) st)
      | READY_TO_OFFLOAD \<Rightarrow>
          (Running, st \<lparr> offloadReadyList := offloadReadyList st @ [MPI_SOURCE m] \<rparr>)
      | NOT_READY_TO_OFFLOAD \<Rightarrow>
          (Running, st \<lparr> offloadReadyList := remove1 (MPI_SOURCE m) (offloadReadyList st) \<rparr>)
      | OFFLOAD_RESP \<Rightarrow>
          (let st1 = st \<lparr> offloadActiveList :=
                            remove1 (MPI_SOURCE m) (offloadActiveList st) \<rparr>
           in if length (payload m) > 4
              then (case freeList st1 of
                      [] \<Rightarrow> (AssertFailed, st1)
                    | pickedWorker # rest \<Rightarrow>
                        (Running,
                         st1 \<lparr> freeList := rest,
                               busyList := busyList st1 @ [pickedWorker],
                               offloadActive := False,
                               trace := trace st1 @
                                 [MPI_Send pickedWorker START_PREFIX_TASK
                                    (Bytes (payload m))] \<rparr>))
              else (Running, st1 \<lparr> offloadActive := False \<rparr>))
      | _ \<Rightarrow> (AssertFailed, st))"

text \<open>
  Lines 1963-1996, the end of every iteration of \<^verbatim>\<open>while(true)\<close>: under the guard, find
  the first element of \<^verbatim>\<open>offloadReadyList\<close> that is not in \<^verbatim>\<open>offloadActiveList\<close>, push it
  on \<^verbatim>\<open>offloadActiveList\<close>, send it \<^verbatim>\<open>OFFLOAD\<close> and set \<^verbatim>\<open>offloadActive\<close>.
\<close>

definition steal_trigger :: "config \<Rightarrow> master_state \<Rightarrow> master_state" where
  "steal_trigger cfg st =
     (if lb cfg \<and> length (freeList st) > 0
         \<and> length (freeList st) < size_t_of (num_cores cfg - 2)
         \<and> length (offloadReadyList st) > 0 \<and> \<not> offloadActive st
      then (case List.find (\<lambda>w. w \<notin> set (offloadActiveList st)) (offloadReadyList st) of
              None \<Rightarrow> st
            | Some worker2offload \<Rightarrow>
                st \<lparr> offloadActiveList := offloadActiveList st @ [worker2offload],
                     offloadActive := True,
                     trace := trace st @ [MPI_Send worker2offload OFFLOAD (Uninit 1)] \<rparr>)
      else st)"

text \<open>
  One iteration of \<^verbatim>\<open>while(true)\<close>: \<^verbatim>\<open>MPI_Iprobe\<close> finds a message or none
  (\<open>None\<close>); a message is received and handled; then the steal trigger runs.
\<close>

definition main_iter :: "config \<Rightarrow> msg option \<Rightarrow> master_state \<Rightarrow> outcome \<times> master_state" where
  "main_iter cfg p st =
     (case p of
        None \<Rightarrow> (Running, steal_trigger cfg st)
      | Some m \<Rightarrow>
          (case main_recv cfg m st of
             (Running, st') \<Rightarrow> (Running, steal_trigger cfg st')
           | r \<Rightarrow> r))"

text \<open>
  The loop over the results of the successive probes. When they are used up the model
  stops with \<open>Running\<close>: the loop itself goes on probing.
\<close>

fun main_loop :: "config \<Rightarrow> master_state \<Rightarrow> msg option list \<Rightarrow> outcome \<times> master_state" where
  "main_loop cfg st [] = (Running, st)"
| "main_loop cfg st (p # ps) =
     (case main_iter cfg p st of
        (Running, st') \<Rightarrow> main_loop cfg st' ps
      | r \<Rightarrow> r)"

subsection \<open>The master with a positive phase-1 depth\<close>

text \<open>
  Seeding, the dispatch loop on the messages received there, then the main loop (where
  \<^verbatim>\<open>offloadActive\<close> starts false) on the messages left over and the later probes.
\<close>

definition master_prefix :: "config \<Rightarrow> msg list \<Rightarrow> msg option list \<Rightarrow> outcome \<times> master_state" where
  "master_prefix cfg msgs probes =
     (case dispatch_loop cfg (seeding cfg) msgs of
        (Running, st, rest) \<Rightarrow>
          main_loop cfg (st \<lparr> offloadActive := False \<rparr>) (map Some rest @ probes)
      | (out, st, rest) \<Rightarrow> (out, st))"

text \<open>\<^verbatim>\<open>master\<close> (line 1467): the branch on \<^verbatim>\<open>phase1Depth == 0\<close>.\<close>

definition master :: "config \<Rightarrow> msg list \<Rightarrow> msg option list \<Rightarrow> outcome \<times> event list" where
  "master cfg msgs probes =
     (if phase1Depth cfg = 0 then master_normal msgs
      else (case master_prefix cfg msgs probes of (out, st) \<Rightarrow> (out, trace st)))"

section \<open>Observations on a trace\<close>

text \<open>
  The \<^verbatim>\<open>START_PREFIX_TASK\<close> messages of a trace, each as the pair of its destination and
  its bytes, and the destinations of its \<^verbatim>\<open>KILL\<close> messages, both in the order sent.
\<close>

fun prefix_sends :: "event list \<Rightarrow> (rank \<times> char list) list" where
  "prefix_sends [] = []"
| "prefix_sends (MPI_Send d START_PREFIX_TASK (Bytes p) # es) = (d, p) # prefix_sends es"
| "prefix_sends (e # es) = prefix_sends es"

fun kill_sends :: "event list \<Rightarrow> rank list" where
  "kill_sends [] = []"
| "kill_sends (MPI_Send d KILL b # es) = d # kill_sends es"
| "kill_sends (e # es) = kill_sends es"

definition is_finish :: "msg \<Rightarrow> bool" where
  "is_finish m = (MPI_TAG m = FINISH)"

section \<open>Concrete runs\<close>

definition message :: "rank \<Rightarrow> tag \<Rightarrow> char list \<Rightarrow> msg" where
  "message r t p = \<lparr> MPI_SOURCE = r, MPI_TAG = t, payload = p \<rparr>"

text \<open>The one byte of a message sent from an uninitialised \<^verbatim>\<open>char\<close>; its value is never read.\<close>

definition dummy :: "char list" where
  "dummy = [CHR 0x00]"

text \<open>Four processes (workers 2 and 3), no load balancing, three prefixes.\<close>

definition cfg_two_workers :: config where
  "cfg_two_workers =
     \<lparr> num_cores = 4, lb = False, phase1Depth = 1, workList = [''0'', ''10'', ''11''] \<rparr>"

text \<open>Five processes (workers 2, 3 and 4), no load balancing, one prefix.\<close>

definition cfg_one_prefix :: config where
  "cfg_one_prefix = \<lparr> num_cores = 5, lb = False, phase1Depth = 1, workList = [''01''] \<rparr>"

text \<open>Six processes (workers 2 to 5), load balancing, three prefixes.\<close>

definition cfg_steal :: config where
  "cfg_steal =
     \<lparr> num_cores = 6, lb = True, phase1Depth = 1,
       workList = [''00000'', ''00001'', ''0001''] \<rparr>"

text \<open>
  The stealing race: worker 3 announces work, is sent \<^verbatim>\<open>OFFLOAD\<close>, and its \<^verbatim>\<open>FINISH\<close>
  arrives before its answer to the request; worker 4 announces work and is sent
  \<^verbatim>\<open>OFFLOAD\<close>; the answer of worker 3 to the first request arrives, an empty offer of one
  byte; worker 2 announces work.
\<close>

definition probes_race :: "msg option list" where
  "probes_race =
     [Some (message 3 READY_TO_OFFLOAD dummy),
      Some (message 3 FINISH dummy),
      Some (message 4 READY_TO_OFFLOAD dummy),
      Some (message 3 OFFLOAD_RESP ''x''),
      Some (message 2 READY_TO_OFFLOAD dummy)]"

text \<open>A master state in the main loop with both workers busy and a steal from 3 outstanding.\<close>

definition st_no_free :: master_state where
  "st_no_free =
     \<lparr> freeList = [], offloadActiveList = [3], busyList = [2, 3],
       offloadReadyList = [3], cnt = 3, offloadActive = True, trace = [] \<rparr>"

text \<open>The same with worker 5 free.\<close>

definition st_one_free :: master_state where
  "st_one_free =
     \<lparr> freeList = [5], offloadActiveList = [3], busyList = [2, 3, 4],
       offloadReadyList = [3], cnt = 3, offloadActive = True, trace = [] \<rparr>"

section \<open>Seeding: what is sent and to whom\<close>

lemma prefix_sends_append: "prefix_sends (xs @ ys) = prefix_sends xs @ prefix_sends ys"
  by (induction xs rule: prefix_sends.induct) auto

lemma kill_sends_append: "kill_sends (xs @ ys) = kill_sends xs @ kill_sends ys"
  by (induction xs rule: kill_sends.induct) auto

lemma prefix_sends_map_kill: "prefix_sends (map (\<lambda>x. MPI_Send x KILL b) xs) = []"
  by (induction xs) auto

lemma prefix_sends_kill_all: "prefix_sends (kill_all cfg) = []"
  by (simp add: kill_all_def prefix_sends_map_kill)

lemma whileCnt_le: "whileCnt cfg \<le> length (workList cfg)"
  by (auto simp: whileCnt_def size_t_of_def)

lemma whileCnt_min:
  "2 \<le> num_cores cfg \<Longrightarrow> whileCnt cfg = min (nat (num_cores cfg - 2)) (length (workList cfg))"
  by (auto simp: whileCnt_def size_t_of_def)

declare seed_loop.simps [simp del] kill_rest.simps [simp del]

lemma seed_loop_rank:
  "snd (seed_loop cfg (st, r)) = r + (whileCnt cfg - cnt st)"
  by (induction cfg "(st, r)" arbitrary: st r rule: seed_loop.induct)
     (subst seed_loop.simps, auto)

lemma seed_loop_cnt:
  "cnt st \<le> whileCnt cfg \<Longrightarrow> cnt (fst (seed_loop cfg (st, r))) = whileCnt cfg"
  by (induction cfg "(st, r)" arbitrary: st r rule: seed_loop.induct)
     (subst seed_loop.simps, auto)

lemma seed_loop_free:
  "freeList (fst (seed_loop cfg (st, r))) = freeList st"
  by (induction cfg "(st, r)" arbitrary: st r rule: seed_loop.induct)
     (subst seed_loop.simps, auto)

lemma seed_loop_kills:
  "kill_sends (trace (fst (seed_loop cfg (st, r)))) = kill_sends (trace st)"
  by (induction cfg "(st, r)" arbitrary: st r rule: seed_loop.induct)
     (subst seed_loop.simps, auto simp: kill_sends_append)

lemma seed_loop_dests:
  "map fst (prefix_sends (trace (fst (seed_loop cfg (st, r))))) =
     map fst (prefix_sends (trace st)) @ [r ..< r + (whileCnt cfg - cnt st)]"
proof (induction cfg "(st, r)" arbitrary: st r rule: seed_loop.induct)
  case (1 cfg st r)
  show ?case
  proof (cases "cnt st < whileCnt cfg")
    case True
    then have "whileCnt cfg - cnt st = Suc (whileCnt cfg - (cnt st + 1))" by simp
    then have "[r ..< r + (whileCnt cfg - cnt st)] = r # [r + 1 ..< r + 1 + (whileCnt cfg - (cnt st + 1))]"
      by (simp add: upt_rec)
    with True 1 show ?thesis
      by (subst seed_loop.simps) (simp add: prefix_sends_append)
  next
    case False
    then show ?thesis by (subst seed_loop.simps) simp
  qed
qed

lemma seed_loop_payloads:
  "map snd (prefix_sends (trace st)) = take (cnt st) (workList cfg) \<Longrightarrow>
   map snd (prefix_sends (trace (fst (seed_loop cfg (st, r))))) =
     take (cnt (fst (seed_loop cfg (st, r)))) (workList cfg)"
proof (induction cfg "(st, r)" arbitrary: st r rule: seed_loop.induct)
  case (1 cfg st r)
  show ?case
  proof (cases "cnt st < whileCnt cfg")
    case True
    then have "cnt st < length (workList cfg)" using whileCnt_le [of cfg] by simp
    then have "take (cnt st + 1) (workList cfg) = take (cnt st) (workList cfg) @ [workList cfg ! cnt st]"
      by (simp add: take_Suc_conv_app_nth)
    with True 1 show ?thesis
      by (subst (1 2) seed_loop.simps) (simp add: prefix_sends_append)
  next
    case False
    with 1 show ?thesis by (subst (1 2) seed_loop.simps) simp
  qed
qed

lemma kill_rest_cnt: "cnt (kill_rest cfg (st, r)) = cnt st"
  by (induction cfg "(st, r)" arbitrary: st r rule: kill_rest.induct)
     (subst kill_rest.simps, auto)

lemma kill_rest_prefix_sends:
  "prefix_sends (trace (kill_rest cfg (st, r))) = prefix_sends (trace st)"
  by (induction cfg "(st, r)" arbitrary: st r rule: kill_rest.induct)
     (subst kill_rest.simps, auto simp: prefix_sends_append)

lemma kill_rest_free:
  "freeList (kill_rest cfg (st, r)) = freeList st @ [r ..< nat (num_cores cfg)]"
proof (induction cfg "(st, r)" arbitrary: st r rule: kill_rest.induct)
  case (1 cfg st r)
  show ?case
  proof (cases "int r < num_cores cfg")
    case True
    then have "[r ..< nat (num_cores cfg)] = r # [r + 1 ..< nat (num_cores cfg)]"
      by (simp add: upt_rec)
    with True 1 show ?thesis by (subst kill_rest.simps) simp
  next
    case False
    then show ?thesis by (subst kill_rest.simps) simp
  qed
qed

lemma kill_rest_kills:
  "kill_sends (trace (kill_rest cfg (st, r))) =
     kill_sends (trace st) @ (if lb cfg then [] else [r ..< nat (num_cores cfg)])"
proof (induction cfg "(st, r)" arbitrary: st r rule: kill_rest.induct)
  case (1 cfg st r)
  show ?case
  proof (cases "int r < num_cores cfg")
    case True
    then have "[r ..< nat (num_cores cfg)] = r # [r + 1 ..< nat (num_cores cfg)]"
      by (simp add: upt_rec)
    with True 1 show ?thesis by (subst kill_rest.simps) (simp add: kill_sends_append)
  next
    case False
    then show ?thesis by (subst kill_rest.simps) simp
  qed
qed

lemma seeding_cnt: "cnt (seeding cfg) = whileCnt cfg"
proof -
  obtain st r where sl: "seed_loop cfg (init_state, 2) = (st, r)"
    by (cases "seed_loop cfg (init_state, 2)")
  have "cnt st = whileCnt cfg"
    using seed_loop_cnt [of init_state cfg 2] sl by (simp add: init_state_def)
  then show ?thesis by (simp add: seeding_def sl kill_rest_cnt)
qed

lemma seeding_dests:
  "map fst (prefix_sends (trace (seeding cfg))) = [2 ..< 2 + whileCnt cfg]"
proof -
  obtain st r where sl: "seed_loop cfg (init_state, 2) = (st, r)"
    by (cases "seed_loop cfg (init_state, 2)")
  have "map fst (prefix_sends (trace st)) = [2 ..< 2 + whileCnt cfg]"
    using seed_loop_dests [of cfg init_state 2] sl by (simp add: init_state_def)
  then show ?thesis by (simp add: seeding_def sl kill_rest_prefix_sends)
qed

lemma seeding_payloads:
  "map snd (prefix_sends (trace (seeding cfg))) = take (cnt (seeding cfg)) (workList cfg)"
proof -
  obtain st r where sl: "seed_loop cfg (init_state, 2) = (st, r)"
    by (cases "seed_loop cfg (init_state, 2)")
  have "map snd (prefix_sends (trace st)) = take (cnt st) (workList cfg)"
    using seed_loop_payloads [of init_state cfg 2] sl by (simp add: init_state_def)
  then show ?thesis by (simp add: seeding_def sl kill_rest_prefix_sends kill_rest_cnt)
qed

lemma seeding_free:
  "freeList (seeding cfg) = [2 + whileCnt cfg ..< nat (num_cores cfg)]"
proof -
  obtain st r where sl: "seed_loop cfg (init_state, 2) = (st, r)"
    by (cases "seed_loop cfg (init_state, 2)")
  have "r = 2 + whileCnt cfg"
    using seed_loop_rank [of cfg init_state 2] sl by (simp add: init_state_def)
  moreover have "freeList st = []"
    using seed_loop_free [of cfg init_state 2] sl by (simp add: init_state_def)
  ultimately show ?thesis by (simp add: seeding_def sl kill_rest_free)
qed

lemma seeding_kills:
  "kill_sends (trace (seeding cfg)) =
     (if lb cfg then [] else [2 + whileCnt cfg ..< nat (num_cores cfg)])"
proof -
  obtain st r where sl: "seed_loop cfg (init_state, 2) = (st, r)"
    by (cases "seed_loop cfg (init_state, 2)")
  have "r = 2 + whileCnt cfg"
    using seed_loop_rank [of cfg init_state 2] sl by (simp add: init_state_def)
  moreover have "kill_sends (trace st) = []"
    using seed_loop_kills [of cfg init_state 2] sl by (simp add: init_state_def)
  ultimately show ?thesis by (simp add: seeding_def sl kill_rest_kills)
qed

section \<open>The dispatch loop: what is sent and to whom\<close>

lemma dispatch_recv_payloads:
  assumes "dispatch_recv cfg m st = (out, st')"
      and "cnt st < length (workList cfg)"
      and "map snd (prefix_sends (trace st)) = take (cnt st) (workList cfg)"
  shows "map snd (prefix_sends (trace st')) = take (cnt st') (workList cfg)"
  using assms
  by (cases "MPI_TAG m")
     (auto simp: dispatch_recv_def emit_def prefix_sends_append prefix_sends_kill_all
        take_Suc_conv_app_nth split: if_splits)

lemma dispatch_recv_dests:
  assumes "dispatch_recv cfg m st = (out, st')"
  shows "map fst (prefix_sends (trace st')) =
           map fst (prefix_sends (trace st)) @ map MPI_SOURCE (filter is_finish [m])"
  using assms
  by (cases "MPI_TAG m")
     (auto simp: dispatch_recv_def emit_def prefix_sends_append prefix_sends_kill_all
        is_finish_def split: if_splits)

lemma dispatch_loop_rest:
  "dispatch_loop cfg st msgs = (out, st', rest) \<Longrightarrow> \<exists>used. msgs = used @ rest"
proof (induction msgs arbitrary: st)
  case Nil
  then show ?case by (auto split: if_splits)
next
  case (Cons m ms)
  show ?case
  proof (cases "cnt st < length (workList cfg)")
    case False
    with Cons.prems show ?thesis by auto
  next
    case True
    obtain o1 s1 where r: "dispatch_recv cfg m st = (o1, s1)"
      by (cases "dispatch_recv cfg m st")
    show ?thesis
    proof (cases "o1 = Running")
      case True
      with Cons.prems \<open>cnt st < length (workList cfg)\<close> r
      have "dispatch_loop cfg s1 ms = (out, st', rest)" by simp
      from Cons.IH [OF this] obtain used where "ms = used @ rest" ..
      then have "m # ms = (m # used) @ rest" by simp
      then show ?thesis ..
    next
      case False
      with Cons.prems \<open>cnt st < length (workList cfg)\<close> r
      have "rest = ms" by (cases o1) auto
      then have "m # ms = [m] @ rest" by simp
      then show ?thesis ..
    qed
  qed
qed

lemma dispatch_loop_inv:
  assumes "dispatch_loop cfg st msgs = (out, st', used_rest)"
      and "map snd (prefix_sends (trace st)) = take (cnt st) (workList cfg)"
  shows "map snd (prefix_sends (trace st')) = take (cnt st') (workList cfg)
       \<and> (out = Running \<longrightarrow> length (workList cfg) \<le> cnt st')
       \<and> map fst (prefix_sends (trace st')) =
           map fst (prefix_sends (trace st)) @
           map MPI_SOURCE (filter is_finish (take (length msgs - length used_rest) msgs))"
  using assms
proof (induction msgs arbitrary: st)
  case Nil
  then show ?case by (auto split: if_splits)
next
  case (Cons m ms)
  show ?case
  proof (cases "cnt st < length (workList cfg)")
    case False
    with Cons.prems show ?thesis by auto
  next
    case True
    obtain o1 s1 where r: "dispatch_recv cfg m st = (o1, s1)"
      by (cases "dispatch_recv cfg m st")
    note p1 = dispatch_recv_payloads [OF r True Cons.prems(2)]
    note d1 = dispatch_recv_dests [OF r]
    show ?thesis
    proof (cases "o1 = Running")
      case True
      with Cons.prems(1) \<open>cnt st < length (workList cfg)\<close> r
      have dl: "dispatch_loop cfg s1 ms = (out, st', used_rest)" by simp
      from dispatch_loop_rest [OF dl] have "length used_rest \<le> length ms" by auto
      then have "take (length (m # ms) - length used_rest) (m # ms)
                 = m # take (length ms - length used_rest) ms"
        by (simp add: Suc_diff_le)
      with Cons.IH [OF dl p1] d1 show ?thesis by simp
    next
      case False
      with Cons.prems(1) \<open>cnt st < length (workList cfg)\<close> r
      have "out = o1 \<and> st' = s1 \<and> used_rest = ms" by (cases o1) auto
      with p1 d1 False show ?thesis by simp
    qed
  qed
qed

lemma dispatch_loop_completes:
  assumes "\<forall>m \<in> set msgs. MPI_TAG m \<in> {FINISH, BUG_FOUND, READY_TO_OFFLOAD}"
      and "length (workList cfg) - cnt st \<le> length (filter is_finish msgs)"
  shows "fst (dispatch_loop cfg st msgs) = Running"
  using assms
proof (induction msgs arbitrary: st)
  case Nil
  then show ?case by simp
next
  case (Cons m ms)
  show ?case
  proof (cases "cnt st < length (workList cfg)")
    case False
    then show ?thesis by simp
  next
    case True
    from Cons.prems(1) have t: "MPI_TAG m \<in> {FINISH, BUG_FOUND, READY_TO_OFFLOAD}" by simp
    obtain s1 where r: "dispatch_recv cfg m st = (Running, s1)"
      and c: "cnt s1 = (if is_finish m then cnt st + 1 else cnt st)"
      using t by (auto simp: dispatch_recv_def emit_def is_finish_def)
    from Cons.prems(2) c have "length (workList cfg) - cnt s1 \<le> length (filter is_finish ms)"
      by (auto split: if_splits)
    with Cons.IH [of s1] Cons.prems(1) have "fst (dispatch_loop cfg s1 ms) = Running" by simp
    with True r show ?thesis by simp
  qed
qed


section \<open>The claims\<close>

subsection \<open>The worker\<close>



text \<open>
  Claim C2 says that a worker that receives \<^verbatim>\<open>KILL\<close> sends \<^verbatim>\<open>KILL_COMP\<close> before it exits,
  so that the master's shutdown receives one \<^verbatim>\<open>KILL_COMP\<close> from every worker. In the code an
  idle worker that receives \<^verbatim>\<open>KILL\<close> sends nothing, for every value of \<^verbatim>\<open>phase1Depth\<close>:
  it returns when the message fits in \<^verbatim>\<open>phase1Depth\<close> bytes, and the receive fails
  otherwise. With phase-1 depth 0: the worker runs the normal task, sends \<^verbatim>\<open>FINISH\<close>,
  and on the one byte of the master's \<^verbatim>\<open>KILL\<close> ends without a \<^verbatim>\<open>KILL_COMP\<close>; the
  master, after that \<^verbatim>\<open>FINISH\<close>, sends \<^verbatim>\<open>KILL\<close> to rank 2 and posts the receive of
  a \<^verbatim>\<open>KILL_COMP\<close> from rank 2.
\<close>

theorem worker_idle_kill_sends_nothing:
  "worker d ex (message 0 KILL b # ms) =
     ((if length b \<le> d then Returned else MPIFailed), [])
   \<and> worker 0 (\<lambda>md p ms. Returns es 0) [message 0 NORMAL_TASK p, message 0 KILL [c]] =
       (MPIFailed, es @ [MPI_Send 0 FINISH (Uninit 1)])
   \<and> master_normal [message 2 FINISH c'] =
       (Aborted, [MPI_Send 2 NORMAL_TASK (Uninit 1), MPI_Send 2 KILL (Uninit 1),
                  MPI_Recv 2 KILL_COMP, LogClose, MPI_Abort])"
  by (simp add: message_def prepend_def master_normal_def)


subsection \<open>Seeding and dispatch\<close>

text \<open>
  Claim C7: at seeding, when the number of prefixes \<open>K\<close> is less than the number of workers
  \<open>W = num_cores - 2\<close>, the prefixes go to the ranks from 2 to \<open>K + 1\<close>, every rank from
  \<open>K + 2\<close> to \<open>num_cores - 1\<close> is put on \<^verbatim>\<open>freeList\<close>, and \<^verbatim>\<open>KILL\<close> is sent to exactly
  these ranks when \<^verbatim>\<open>lb\<close> is off and to nobody when it is on.
\<close>

theorem seeding_idle_workers:
  assumes "length (workList cfg) < nat (num_cores cfg - 2)"
  shows "map fst (prefix_sends (trace (seeding cfg))) = [2 ..< 2 + length (workList cfg)]
       \<and> freeList (seeding cfg) = [2 + length (workList cfg) ..< nat (num_cores cfg)]
       \<and> kill_sends (trace (seeding cfg)) =
           (if lb cfg then [] else [2 + length (workList cfg) ..< nat (num_cores cfg)])"
proof -
  from assms have "whileCnt cfg = length (workList cfg)"
    by (auto simp: whileCnt_def size_t_of_def)
  then show ?thesis
    by (simp add: seeding_dests seeding_free seeding_kills)
qed

theorem seeding_idle_workers_witness:
  "length (workList cfg_one_prefix) < nat (num_cores cfg_one_prefix - 2)
   \<and> map fst (prefix_sends (trace (seeding cfg_one_prefix))) = [2]
   \<and> freeList (seeding cfg_one_prefix) = [3, 4]
   \<and> kill_sends (trace (seeding cfg_one_prefix)) = [3, 4]"
proof -
  have h: "length (workList cfg_one_prefix) < nat (num_cores cfg_one_prefix - 2)"
    by (simp add: cfg_one_prefix_def)
  have u: "[3 ..< 5] = [3, 4::nat]" by (simp add: upt_rec)
  have v: "[2 ..< 3] = [2::nat]" by (simp add: upt_rec)
  show ?thesis
    using h seeding_idle_workers [OF h] by (simp add: cfg_one_prefix_def u v)
qed

text \<open>
  Claim C6: every prefix of phase 1 is sent as a \<^verbatim>\<open>START_PREFIX_TASK\<close> exactly once, in
  queue order. At every point of seeding and of the dispatch loop the prefixes sent so far
  are the first \<^verbatim>\<open>cnt\<close> elements of the queue, in order, each sent once; when the dispatch
  loop ends they are the whole queue. The first \<open>whileCnt\<close> of them go to the ranks
  2, 3, ... in order, where \<open>whileCnt\<close> is the minimum of \<open>W\<close> and \<open>K\<close>, and each later
  one goes to the source of a \<^verbatim>\<open>FINISH\<close>, in the order in which these were received. The
  loop ends when the messages received are \<^verbatim>\<open>FINISH\<close>, \<^verbatim>\<open>BUG_FOUND\<close> and
  \<^verbatim>\<open>READY_TO_OFFLOAD\<close> and at least \<open>K - whileCnt\<close> of them are \<^verbatim>\<open>FINISH\<close>.
\<close>

theorem prefixes_sent_once_in_order:
  assumes "dispatch_loop cfg (seeding cfg) msgs = (out, st, rest)"
  shows "map snd (prefix_sends (trace st)) = take (cnt st) (workList cfg)
       \<and> (out = Running \<longrightarrow> map snd (prefix_sends (trace st)) = workList cfg)
       \<and> map fst (prefix_sends (trace st)) =
           [2 ..< 2 + whileCnt cfg] @
           map MPI_SOURCE (filter is_finish (take (length msgs - length rest) msgs))
       \<and> (2 \<le> num_cores cfg \<longrightarrow>
            whileCnt cfg = min (nat (num_cores cfg - 2)) (length (workList cfg)))
       \<and> ((\<forall>m \<in> set msgs. MPI_TAG m \<in> {FINISH, BUG_FOUND, READY_TO_OFFLOAD})
            \<and> length (workList cfg) - whileCnt cfg \<le> length (filter is_finish msgs)
          \<longrightarrow> out = Running)"
proof -
  note inv = dispatch_loop_inv [OF assms seeding_payloads]
  have live: "out = Running"
    if "\<forall>m \<in> set msgs. MPI_TAG m \<in> {FINISH, BUG_FOUND, READY_TO_OFFLOAD}"
      and "length (workList cfg) - whileCnt cfg \<le> length (filter is_finish msgs)"
    using dispatch_loop_completes [of msgs cfg "seeding cfg"] that assms
    by (simp add: seeding_cnt)
  from inv live whileCnt_min [of cfg] show ?thesis
    by (auto simp: seeding_dests)
qed

theorem prefixes_sent_once_in_order_witness:
  "dispatch_loop cfg_two_workers (seeding cfg_two_workers) [message 3 FINISH dummy] =
     (Running,
      \<lparr> freeList = [], offloadActiveList = [], busyList = [2, 3], offloadReadyList = [],
        cnt = 3, offloadActive = False,
        trace = [MPI_Send 2 START_PREFIX_TASK (Bytes ''0''),
                 MPI_Send 3 START_PREFIX_TASK (Bytes ''10''),
                 MPI_Send 3 START_PREFIX_TASK (Bytes ''11'')] \<rparr>,
      [])
   \<and> 2 \<le> num_cores cfg_two_workers
   \<and> map MPI_TAG [message 3 FINISH dummy] = [FINISH]
   \<and> length (workList cfg_two_workers) - whileCnt cfg_two_workers = 1
   \<and> map snd (prefix_sends
        [MPI_Send 2 START_PREFIX_TASK (Bytes ''0''),
         MPI_Send 3 START_PREFIX_TASK (Bytes ''10''),
         MPI_Send 3 START_PREFIX_TASK (Bytes ''11'')]) = workList cfg_two_workers
   \<and> map fst (prefix_sends
        [MPI_Send 2 START_PREFIX_TASK (Bytes ''0''),
         MPI_Send 3 START_PREFIX_TASK (Bytes ''10''),
         MPI_Send 3 START_PREFIX_TASK (Bytes ''11'')]) = [2, 3, 3]"
proof -
  have e: "dispatch_loop cfg_two_workers (seeding cfg_two_workers) [message 3 FINISH dummy] =
     (Running,
      \<lparr> freeList = [], offloadActiveList = [], busyList = [2, 3], offloadReadyList = [],
        cnt = 3, offloadActive = False,
        trace = [MPI_Send 2 START_PREFIX_TASK (Bytes ''0''),
                 MPI_Send 3 START_PREFIX_TASK (Bytes ''10''),
                 MPI_Send 3 START_PREFIX_TASK (Bytes ''11'')] \<rparr>,
      [])"
    by code_simp
  show ?thesis
    using e prefixes_sent_once_in_order [OF e]
    by (simp add: cfg_two_workers_def message_def whileCnt_def size_t_of_def)
qed

subsection \<open>Bug and timeout while prefixes are pending\<close>

text \<open>
  Claim C3 says that after a \<^verbatim>\<open>BUG_FOUND\<close>, also with prefixes pending, the master shuts
  down and never dispatches further work. In the dispatch loop the master writes the elapsed
  time, closes the log and sends \<^verbatim>\<open>KILL\<close> to every worker, but does not abort: the loop goes
  on, and the \<^verbatim>\<open>FINISH\<close> of worker 3 that follows makes it send the third prefix to
  worker 3.
\<close>

theorem dispatch_bug_found_goes_on:
  "master cfg_two_workers [message 2 BUG_FOUND dummy, message 3 FINISH dummy] [] =
     (Running,
      [MPI_Send 2 START_PREFIX_TASK (Bytes ''0''),
       MPI_Send 3 START_PREFIX_TASK (Bytes ''10''),
       LogElapsed, LogClose,
       MPI_Send 2 KILL (Uninit 1), MPI_Send 3 KILL (Uninit 1),
       MPI_Send 3 START_PREFIX_TASK (Bytes ''11'')])"
  by code_simp

text \<open>
  Claim C4 says that a \<^verbatim>\<open>TIMEOUT\<close> from rank 1 always leads to a clean shutdown, also while
  prefixes are pending, and is never a fatal assertion. In the dispatch loop \<^verbatim>\<open>TIMEOUT\<close>
  falls in the last branch, whose assertion fails: no \<^verbatim>\<open>KILL\<close> is sent. In the main loop
  the same message leads to the shutdown the claim describes.
\<close>

theorem dispatch_timeout_fails_assertion:
  "master cfg_two_workers [message 1 TIMEOUT dummy] [] =
     (AssertFailed,
      [MPI_Send 2 START_PREFIX_TASK (Bytes ''0''),
       MPI_Send 3 START_PREFIX_TASK (Bytes ''10'')])
   \<and> master cfg_two_workers [message 2 FINISH dummy] [Some (message 1 TIMEOUT dummy)] =
     (Aborted,
      [MPI_Send 2 START_PREFIX_TASK (Bytes ''0''),
       MPI_Send 3 START_PREFIX_TASK (Bytes ''10''),
       MPI_Send 2 START_PREFIX_TASK (Bytes ''11''),
       MPI_Send 2 KILL (Uninit 1), MPI_Send 3 KILL (Uninit 1),
       MPI_Recv 2 KILL_COMP, MPI_Recv 3 KILL_COMP, MPI_Abort])"
  by code_simp

subsection \<open>Offload responses\<close>

text \<open>
  Claim C5, as stated, says that an \<^verbatim>\<open>OFFLOAD_RESP\<close> longer than 4 bytes that arrives while
  \<^verbatim>\<open>freeList\<close> is empty is dropped without error and clears \<^verbatim>\<open>offloadActive\<close>. In the code
  \<^verbatim>\<open>assert(freeList.size() > 0)\<close> fails there, with \<^verbatim>\<open>offloadActive\<close> still set.
\<close>

theorem offload_resp_no_free_counterexample:
  "main_recv cfg_two_workers (message 3 OFFLOAD_RESP ''01011'') st_no_free =
     (AssertFailed,
      \<lparr> freeList = [], offloadActiveList = [], busyList = [2, 3], offloadReadyList = [3],
        cnt = 3, offloadActive = True, trace = [] \<rparr>)"
  by code_simp

text \<open>
  Claim C5, amended: on an \<^verbatim>\<open>OFFLOAD_RESP\<close> the master erases the first occurrence of the
  source from \<^verbatim>\<open>offloadActiveList\<close>. The assertion fails exactly when the payload is longer
  than 4 and \<^verbatim>\<open>freeList\<close> is empty. A \<^verbatim>\<open>START_PREFIX_TASK\<close> is sent exactly when the
  payload is longer than 4 and \<^verbatim>\<open>freeList\<close> is not empty: it carries the payload and goes
  to the front of \<^verbatim>\<open>freeList\<close>, which moves to the back of \<^verbatim>\<open>busyList\<close>. Otherwise nothing
  is sent and \<^verbatim>\<open>freeList\<close> and \<^verbatim>\<open>busyList\<close> are unchanged. Whenever the assertion does not
  fail, \<^verbatim>\<open>offloadActive\<close> is cleared.
\<close>

theorem offload_resp_dispatch:
  assumes "MPI_TAG m = OFFLOAD_RESP"
      and "main_recv cfg m st = (out, st')"
  shows "offloadActiveList st' = remove1 (MPI_SOURCE m) (offloadActiveList st)
       \<and> (out = AssertFailed) = (4 < length (payload m) \<and> freeList st = [])
       \<and> (out = Running) = (\<not> (4 < length (payload m) \<and> freeList st = []))
       \<and> trace st' = trace st @
           (if 4 < length (payload m) \<and> freeList st \<noteq> []
            then [MPI_Send (hd (freeList st)) START_PREFIX_TASK (Bytes (payload m))] else [])
       \<and> freeList st' =
           (if 4 < length (payload m) then tl (freeList st) else freeList st)
       \<and> busyList st' =
           (if 4 < length (payload m) \<and> freeList st \<noteq> []
            then busyList st @ [hd (freeList st)] else busyList st)
       \<and> (out = Running \<longrightarrow> \<not> offloadActive st')"
  using assms
  by (cases "freeList st") (auto simp: main_recv_def Let_def split: if_splits)

theorem offload_resp_dispatch_witness:
  "MPI_TAG (message 3 OFFLOAD_RESP ''01011'') = OFFLOAD_RESP
   \<and> main_recv cfg_steal (message 3 OFFLOAD_RESP ''01011'') st_one_free =
       (Running,
        \<lparr> freeList = [], offloadActiveList = [], busyList = [2, 3, 4, 5],
          offloadReadyList = [3], cnt = 3, offloadActive = False,
          trace = [MPI_Send 5 START_PREFIX_TASK (Bytes ''01011'')] \<rparr>)
   \<and> remove1 3 (offloadActiveList st_one_free) = []
   \<and> 4 < length ''01011'' \<and> freeList st_one_free = [5]"
proof -
  have h: "MPI_TAG (message 3 OFFLOAD_RESP ''01011'') = OFFLOAD_RESP"
    by (simp add: message_def)
  have e: "main_recv cfg_steal (message 3 OFFLOAD_RESP ''01011'') st_one_free =
       (Running,
        \<lparr> freeList = [], offloadActiveList = [], busyList = [2, 3, 4, 5],
          offloadReadyList = [3], cnt = 3, offloadActive = False,
          trace = [MPI_Send 5 START_PREFIX_TASK (Bytes ''01011'')] \<rparr>)"
    by code_simp
  show ?thesis
    using h e offload_resp_dispatch [OF h e] by (simp add: st_one_free_def)
qed

text \<open>
  The steal trigger either changes nothing or, under its guard, sends one \<^verbatim>\<open>OFFLOAD\<close> to the
  first element of \<^verbatim>\<open>offloadReadyList\<close> that is not in \<^verbatim>\<open>offloadActiveList\<close>.
\<close>

lemma steal_trigger_request:
  "steal_trigger cfg st = st
   \<or> (lb cfg \<and> freeList st \<noteq> [] \<and> length (freeList st) < size_t_of (num_cores cfg - 2)
       \<and> \<not> offloadActive st
       \<and> (\<exists>w. List.find (\<lambda>w. w \<notin> set (offloadActiveList st)) (offloadReadyList st) = Some w
              \<and> steal_trigger cfg st =
                  st \<lparr> offloadActiveList := offloadActiveList st @ [w],
                       offloadActive := True,
                       trace := trace st @ [MPI_Send w OFFLOAD (Uninit 1)] \<rparr>))"
  by (auto simp: steal_trigger_def split: option.splits)

text \<open>
  Claim C8 says that at every step of the master's loop at most one steal is outstanding
  and \<^verbatim>\<open>offloadActiveList\<close> has at most one element. In the run of the stealing race the
  answer of worker 3 to a request that its \<^verbatim>\<open>FINISH\<close> had already closed clears
  \<^verbatim>\<open>offloadActive\<close> while the request to worker 4 is outstanding; the master then sends a
  request to worker 2 as well, and \<^verbatim>\<open>offloadActiveList\<close> holds 4 and 2.
\<close>

theorem two_steals_outstanding:
  "master_prefix cfg_steal [] probes_race =
     (Running,
      \<lparr> freeList = [5, 3], offloadActiveList = [4, 2], busyList = [2, 4],
        offloadReadyList = [4, 2], cnt = 3, offloadActive = True,
        trace = [MPI_Send 2 START_PREFIX_TASK (Bytes ''00000''),
                 MPI_Send 3 START_PREFIX_TASK (Bytes ''00001''),
                 MPI_Send 4 START_PREFIX_TASK (Bytes ''0001''),
                 MPI_Send 3 OFFLOAD (Uninit 1),
                 MPI_Send 4 OFFLOAD (Uninit 1),
                 MPI_Send 2 OFFLOAD (Uninit 1)] \<rparr>)"
  by code_simp

subsection \<open>Not ready to offload\<close>

text \<open>
  Claim C9, as stated, says that a \<^verbatim>\<open>NOT_READY_TO_OFFLOAD\<close> from a rank that is not in
  \<^verbatim>\<open>offloadReadyList\<close> is tolerated in every phase, also while prefixes are pending. In the
  dispatch loop \<^verbatim>\<open>assert(found2Erase)\<close> fails.
\<close>

theorem dispatch_not_ready_absent_counterexample:
  "master cfg_two_workers [message 2 NOT_READY_TO_OFFLOAD dummy] [] =
     (AssertFailed,
      [MPI_Send 2 START_PREFIX_TASK (Bytes ''0''),
       MPI_Send 3 START_PREFIX_TASK (Bytes ''10'')])"
  by code_simp

text \<open>
  Claim C9, amended: on \<^verbatim>\<open>NOT_READY_TO_OFFLOAD\<close> the main loop erases the first occurrence
  of the source from \<^verbatim>\<open>offloadReadyList\<close> and goes on; when the source is not in the list
  the state is unchanged and nothing fails. The dispatch loop leaves the same state, and goes
  on when the source is in the list; when it is not, the assertion fails.
\<close>

theorem not_ready_to_offload:
  assumes "MPI_TAG m = NOT_READY_TO_OFFLOAD"
  shows "fst (main_recv cfg m st) = Running
       \<and> snd (main_recv cfg m st) =
           st \<lparr> offloadReadyList := remove1 (MPI_SOURCE m) (offloadReadyList st) \<rparr>
       \<and> (MPI_SOURCE m \<notin> set (offloadReadyList st) \<longrightarrow> snd (main_recv cfg m st) = st)
       \<and> fst (dispatch_recv cfg m st) =
           (if MPI_SOURCE m \<in> set (offloadReadyList st) then Running else AssertFailed)
       \<and> snd (dispatch_recv cfg m st) = snd (main_recv cfg m st)"
  using assms by (simp add: main_recv_def dispatch_recv_def remove1_idem)

theorem not_ready_to_offload_witness:
  "MPI_TAG (message 2 NOT_READY_TO_OFFLOAD dummy) = NOT_READY_TO_OFFLOAD
   \<and> 2 \<notin> set (offloadReadyList st_one_free)
   \<and> main_recv cfg_steal (message 2 NOT_READY_TO_OFFLOAD dummy) st_one_free =
       (Running, st_one_free)
   \<and> dispatch_recv cfg_steal (message 2 NOT_READY_TO_OFFLOAD dummy) st_one_free =
       (AssertFailed, st_one_free)"
proof -
  have h: "MPI_TAG (message 2 NOT_READY_TO_OFFLOAD dummy) = NOT_READY_TO_OFFLOAD"
    by (simp add: message_def)
  have a: "2 \<notin> set (offloadReadyList st_one_free)" by (simp add: st_one_free_def)
  have m: "MPI_SOURCE (message 2 NOT_READY_TO_OFFLOAD dummy) = 2" by (simp add: message_def)
  note t = not_ready_to_offload [OF h, of cfg_steal st_one_free, unfolded m]
  note t1 = t [THEN conjunct1]
  note t3 = t [THEN conjunct2, THEN conjunct2, THEN conjunct1, THEN mp, OF a]
  note t4 = t [THEN conjunct2, THEN conjunct2, THEN conjunct2, THEN conjunct1]
  note t5 = t [THEN conjunct2, THEN conjunct2, THEN conjunct2, THEN conjunct2]
  from t4 a
  have d1: "fst (dispatch_recv cfg_steal (message 2 NOT_READY_TO_OFFLOAD dummy) st_one_free) =
          AssertFailed"
    by (simp only: if_False)
  from t5 t3
  have d2: "snd (dispatch_recv cfg_steal (message 2 NOT_READY_TO_OFFLOAD dummy) st_one_free) =
          st_one_free"
    by (rule trans)
  from t1 t3 d1 d2 h a show ?thesis
    by (simp only: prod_eq_iff fst_conv snd_conv simp_thms)
qed


end
